theory Spec2Isabelle
  imports Main
begin

section \<open>Thrown values and results\<close>

text \<open>
  A JavaScript \<^verbatim>\<open>throw\<close> is a value of type \<open>error\<close>.  \<open>Error msg\<close> is
  \<^verbatim>\<open>new Error(msg)\<close>; \<open>TypeError\<close> and \<open>ReferenceError\<close> are the errors the
  language itself raises when a non-function is called and when an identifier that has no
  binding is evaluated.  A method that may throw returns \<open>error + 'a\<close> together with the
  object as the call leaves it: an exception does not undo the assignments made before it.
\<close>

datatype error = Error string | TypeError string | ReferenceError string

type_synonym 'a result = "error + 'a"

section \<open>Operation components\<close>

text \<open>
  \<^verbatim>\<open>TextOperation\<close> is imported from \<^verbatim>\<open>./text-operation\<close>.  The client, the
  server and the undo manager use an operation only through \<^verbatim>\<open>transform\<close>,
  \<^verbatim>\<open>compose\<close>, \<^verbatim>\<open>apply\<close> and \<^verbatim>\<open>isNoop\<close>; their models take these as
  parameters \<open>tr\<close>, \<open>cmp\<close>, \<open>ap\<close>, \<open>isNoop\<close> over an arbitrary type \<open>'op\<close> of
  operations, each of the first three returning an \<open>error\<close> where the method throws.
  \<^verbatim>\<open>Range.transform\<close> reads the array \<^verbatim>\<open>other.ops\<close>, whose entries are numbers
  and strings.
\<close>

datatype component = Num (num: int) | Str (str: string)

text \<open>
  Modelled from the spec: \<^verbatim>\<open>TextOperation.isRetain\<close> and \<^verbatim>\<open>TextOperation.isInsert\<close>
  are not part of the sources.  The wire schema of the spec reads a positive integer as a
  retain, a negative integer as a delete and a string as an insert.
\<close>

fun isRetain :: "component \<Rightarrow> bool" where
  "isRetain (Num n) = (0 < n)"
| "isRetain (Str s) = False"

fun isInsert :: "component \<Rightarrow> bool" where
  "isInsert (Num n) = False"
| "isInsert (Str s) = True"

section \<open>Client (src/lib/client.ts)\<close>

text \<open>
  The three state classes are the constructors of \<open>ClientState\<close>; the fields
  \<^verbatim>\<open>outstanding\<close> and \<^verbatim>\<open>buffer\<close> are the constructor arguments, in the order of
  the class constructors.
\<close>

datatype 'op ClientState =
    Synchronized
  | AwaitingConfirm 'op
  | AwaitingConfirmWithBuffer 'op 'op

text \<open>
  \<^verbatim>\<open>sendOperation\<close> and \<^verbatim>\<open>applyOperation\<close> are abstract methods of
  \<^verbatim>\<open>Client\<close>.  The model records each call, in order, in the field \<open>calls\<close>; the
  callbacks neither throw nor call back into the client.
\<close>

datatype 'op call = SendOperation int 'op | ApplyOperation 'op

record 'op Client =
  state :: "'op ClientState"
  revision :: int
  calls :: "'op call list"

definition sendOperation :: "int \<Rightarrow> 'op \<Rightarrow> 'op Client \<Rightarrow> 'op Client" where
  "sendOperation r operation client =
     client\<lparr>calls := calls client @ [SendOperation r operation]\<rparr>"

definition applyOperation :: "'op \<Rightarrow> 'op Client \<Rightarrow> 'op Client" where
  "applyOperation operation client =
     client\<lparr>calls := calls client @ [ApplyOperation operation]\<rparr>"

definition Client_new :: "int \<Rightarrow> 'op Client" where
  "Client_new r = \<lparr>state = Synchronized, revision = r, calls = []\<rparr>"

definition setState :: "'op ClientState \<Rightarrow> 'op Client \<Rightarrow> 'op Client" where
  "setState st client = client\<lparr>state := st\<rparr>"

text \<open>
  The methods of the state classes.  Each returns the next state, or what it throws, and
  the client after the callbacks it made.
\<close>

fun State_applyClient ::
  "('op \<Rightarrow> 'op \<Rightarrow> 'op result) \<Rightarrow> 'op ClientState \<Rightarrow> 'op Client \<Rightarrow> 'op
     \<Rightarrow> 'op ClientState result \<times> 'op Client" where
  "State_applyClient cmp Synchronized client operation =
     (Inr (AwaitingConfirm operation), sendOperation (revision client) operation client)"
| "State_applyClient cmp (AwaitingConfirm outstanding) client operation =
     (Inr (AwaitingConfirmWithBuffer outstanding operation), client)"
| "State_applyClient cmp (AwaitingConfirmWithBuffer outstanding buffer) client operation =
     (case cmp buffer operation of
        Inl e \<Rightarrow> (Inl e, client)
      | Inr newBuffer \<Rightarrow> (Inr (AwaitingConfirmWithBuffer outstanding newBuffer), client))"

text \<open>
  In \<^verbatim>\<open>AwaitingConfirmWithBuffer.applyServer\<close> the last statement is
  \<^verbatim>\<open>return new AwaitingWithBuffer(pair1[0], pair2[0])\<close>.  The module declares the
  classes \<^verbatim>\<open>SynchronizedState\<close>, \<^verbatim>\<open>AwaitingConfirm\<close>,
  \<^verbatim>\<open>AwaitingConfirmWithBuffer\<close> and \<^verbatim>\<open>Client\<close> and imports only
  \<^verbatim>\<open>TextOperation\<close>: the identifier \<^verbatim>\<open>AwaitingWithBuffer\<close> has no binding, and
  evaluating it throws a \<^verbatim>\<open>ReferenceError\<close>, after \<^verbatim>\<open>client.applyOperation\<close>
  has been called.
\<close>

fun State_applyServer ::
  "('op \<Rightarrow> 'op \<Rightarrow> ('op \<times> 'op) result) \<Rightarrow> 'op ClientState \<Rightarrow> 'op Client \<Rightarrow> 'op
     \<Rightarrow> 'op ClientState result \<times> 'op Client" where
  "State_applyServer tr Synchronized client operation =
     (Inr Synchronized, applyOperation operation client)"
| "State_applyServer tr (AwaitingConfirm outstanding) client operation =
     (case tr outstanding operation of
        Inl e \<Rightarrow> (Inl e, client)
      | Inr pair \<Rightarrow> (Inr (AwaitingConfirm (fst pair)), applyOperation (snd pair) client))"
| "State_applyServer tr (AwaitingConfirmWithBuffer outstanding buffer) client operation =
     (case tr outstanding operation of
        Inl e \<Rightarrow> (Inl e, client)
      | Inr pair1 \<Rightarrow>
          (case tr buffer (snd pair1) of
             Inl e \<Rightarrow> (Inl e, client)
           | Inr pair2 \<Rightarrow>
               (Inl (ReferenceError ''AwaitingWithBuffer is not defined''),
                applyOperation (snd pair2) client)))"

fun State_serverAck ::
  "'op ClientState \<Rightarrow> 'op Client \<Rightarrow> 'op ClientState result \<times> 'op Client" where
  "State_serverAck Synchronized client =
     (Inl (Error ''There is no pending operation.''), client)"
| "State_serverAck (AwaitingConfirm outstanding) client = (Inr Synchronized, client)"
| "State_serverAck (AwaitingConfirmWithBuffer outstanding buffer) client =
     (Inr (AwaitingConfirm buffer), sendOperation (revision client) buffer client)"

text \<open>
  \<^verbatim>\<open>resend\<close> is an optional method of the interface: \<^verbatim>\<open>SynchronizedState\<close>
  does not define it, so the property read gives \<^verbatim>\<open>undefined\<close> (\<open>None\<close>).
\<close>

fun State_resend :: "'op ClientState \<Rightarrow> ('op Client \<Rightarrow> 'op Client) option" where
  "State_resend Synchronized = None"
| "State_resend (AwaitingConfirm outstanding) =
     Some (\<lambda>client. sendOperation (revision client) outstanding client)"
| "State_resend (AwaitingConfirmWithBuffer outstanding buffer) =
     Some (\<lambda>client. sendOperation (revision client) outstanding client)"

text \<open>The methods of \<^verbatim>\<open>Client\<close>.\<close>

definition Client_applyClient ::
  "('op \<Rightarrow> 'op \<Rightarrow> 'op result) \<Rightarrow> 'op \<Rightarrow> 'op Client \<Rightarrow> unit result \<times> 'op Client" where
  "Client_applyClient cmp operation client =
     (case State_applyClient cmp (state client) client operation of
        (Inl e, client') \<Rightarrow> (Inl e, client')
      | (Inr st, client') \<Rightarrow> (Inr (), setState st client'))"

definition Client_applyServer ::
  "('op \<Rightarrow> 'op \<Rightarrow> ('op \<times> 'op) result) \<Rightarrow> 'op \<Rightarrow> 'op Client \<Rightarrow> unit result \<times> 'op Client" where
  "Client_applyServer tr operation client =
     (let client1 = client\<lparr>revision := revision client + 1\<rparr> in
      case State_applyServer tr (state client1) client1 operation of
        (Inl e, client2) \<Rightarrow> (Inl e, client2)
      | (Inr st, client2) \<Rightarrow> (Inr (), setState st client2))"

definition Client_serverAck :: "'op Client \<Rightarrow> unit result \<times> 'op Client" where
  "Client_serverAck client =
     (let client1 = client\<lparr>revision := revision client + 1\<rparr> in
      case State_serverAck (state client1) client1 of
        (Inl e, client2) \<Rightarrow> (Inl e, client2)
      | (Inr st, client2) \<Rightarrow> (Inr (), setState st client2))"

text \<open>
  \<^verbatim>\<open>this.state?.resend(this)\<close>: the optional chain guards \<^verbatim>\<open>this.state\<close>, which
  always holds a state object, and not the method; calling the \<^verbatim>\<open>undefined\<close> method
  throws a \<^verbatim>\<open>TypeError\<close>.
\<close>

definition Client_serverReconnect :: "'op Client \<Rightarrow> unit result \<times> 'op Client" where
  "Client_serverReconnect client =
     (case State_resend (state client) of
        None \<Rightarrow> (Inl (TypeError ''this.state.resend is not a function''), client)
      | Some resend \<Rightarrow> (Inr (), resend client))"

section \<open>Server (src/lib/server.ts)\<close>

record 'op Server =
  document :: string
  operations :: "'op list"

text \<open>
  The \<^verbatim>\<open>for\<close> loop of \<^verbatim>\<open>receiveOperation\<close>: \<open>i\<close> runs over the indices of
  \<^verbatim>\<open>concurrentOperations\<close>, and \<^verbatim>\<open>operation\<close> is replaced by the component
  \<^verbatim>\<open>[0]\<close> of each pair.  A \<^verbatim>\<open>transform\<close> that throws ends the loop.
\<close>

function receiveOperation_loop ::
  "('op \<Rightarrow> 'op \<Rightarrow> ('op \<times> 'op) result) \<Rightarrow> 'op list \<Rightarrow> nat \<Rightarrow> 'op \<Rightarrow> 'op result" where
  "receiveOperation_loop tr concurrentOperations i operation =
     (if i < length concurrentOperations then
        (case tr operation (concurrentOperations ! i) of
           Inl e \<Rightarrow> Inl e
         | Inr pair \<Rightarrow> receiveOperation_loop tr concurrentOperations (i + 1) (fst pair))
      else Inr operation)"
  by pat_completeness auto
termination
  by (relation "measure (\<lambda>(tr, concurrentOperations, i, operation).
        length concurrentOperations - i)") auto

declare receiveOperation_loop.simps [simp del]

text \<open>
  \<^verbatim>\<open>this.operations.slice(revision)\<close> with \<open>0 \<le> revision \<le> length\<close> is
  \<open>drop (nat revision)\<close>; \<^verbatim>\<open>revision\<close> is an integer.  The document is assigned
  and the history extended only on the path where neither \<^verbatim>\<open>transform\<close> nor
  \<^verbatim>\<open>apply\<close> has thrown.
\<close>

definition receiveOperation ::
  "('op \<Rightarrow> 'op \<Rightarrow> ('op \<times> 'op) result) \<Rightarrow> ('op \<Rightarrow> string \<Rightarrow> string result)
     \<Rightarrow> int \<Rightarrow> 'op \<Rightarrow> 'op Server \<Rightarrow> 'op result \<times> 'op Server" where
  "receiveOperation tr ap r operation server =
     (if r < 0 \<or> int (length (operations server)) < r then
        (Inl (Error ''operation revision not in history''), server)
      else
        (let concurrentOperations = drop (nat r) (operations server) in
         case receiveOperation_loop tr concurrentOperations 0 operation of
           Inl e \<Rightarrow> (Inl e, server)
         | Inr operation' \<Rightarrow>
             (case ap operation' (document server) of
                Inl e \<Rightarrow> (Inl e, server)
              | Inr doc \<Rightarrow>
                  (Inr operation',
                   server\<lparr>document := doc,
                          operations := operations server @ [operation']\<rparr>))))"

text \<open>
  The spec's step 2, "for each \<open>h\<close> in concurrent in order: \<open>op := transform(op, h).0\<close>",
  as a recursion over the list of concurrent operations.
\<close>

primrec transform_against ::
  "('op \<Rightarrow> 'op \<Rightarrow> ('op \<times> 'op) result) \<Rightarrow> 'op \<Rightarrow> 'op list \<Rightarrow> 'op result" where
  "transform_against tr operation [] = Inr operation"
| "transform_against tr operation (h # hs) =
     (case tr operation h of
        Inl e \<Rightarrow> Inl e
      | Inr pair \<Rightarrow> transform_against tr (fst pair) hs)"

section \<open>UndoManager (src/unnamed/part_000)\<close>

text \<open>
  An array used as a stack is a list whose last element is the top:
  \<^verbatim>\<open>push(x)\<close> is \<open>xs @ [x]\<close>, \<^verbatim>\<open>pop()\<close> returns \<open>last xs\<close> and leaves
  \<open>butlast xs\<close>, \<^verbatim>\<open>shift()\<close> removes the element at index 0 and leaves \<open>tl xs\<close>.

  The loop of \<^verbatim>\<open>transformStack\<close>: \<open>i\<close> runs from \<open>stack.length - 1\<close> down to 0.  Every
  operation that \<^verbatim>\<open>transform\<close> returns has the method \<^verbatim>\<open>isNoop\<close>, so the guard
  \<^verbatim>\<open>typeof pair[0].isNoop !== "function"\<close> is false and the entry is pushed when
  \<^verbatim>\<open>pair[0].isNoop()\<close> is false.
\<close>

function transformStack_loop ::
  "('op \<Rightarrow> 'op \<Rightarrow> ('op \<times> 'op) result) \<Rightarrow> ('op \<Rightarrow> bool) \<Rightarrow> 'op list \<Rightarrow> int \<Rightarrow> 'op
     \<Rightarrow> 'op list \<Rightarrow> 'op list result" where
  "transformStack_loop tr isNoop stack i operation newStack =
     (if 0 \<le> i then
        (case tr (stack ! nat i) operation of
           Inl e \<Rightarrow> Inl e
         | Inr pair \<Rightarrow>
             transformStack_loop tr isNoop stack (i - 1) (snd pair)
               (if \<not> isNoop (fst pair) then newStack @ [fst pair] else newStack))
      else Inr newStack)"
  by pat_completeness auto
termination
  by (relation "measure (\<lambda>(tr, isNoop, stack, i, operation, newStack). nat (i + 1))") auto

declare transformStack_loop.simps [simp del]

definition transformStack ::
  "('op \<Rightarrow> 'op \<Rightarrow> ('op \<times> 'op) result) \<Rightarrow> ('op \<Rightarrow> bool) \<Rightarrow> 'op list \<Rightarrow> 'op
     \<Rightarrow> 'op list result" where
  "transformStack tr isNoop stack operation =
     (case transformStack_loop tr isNoop stack (int (length stack) - 1) operation [] of
        Inl e \<Rightarrow> Inl e
      | Inr newStack \<Rightarrow> Inr (rev newStack))"

datatype UndoManagerState = NORMAL_STATE | UNDOING_STATE | REDOING_STATE

text \<open>
  The field \<^verbatim>\<open>state\<close> of the class is \<open>um_state\<close> here.  \<^verbatim>\<open>maxItems\<close> is a
  natural number, the spec's \<open>usize\<close>.
\<close>

record 'op UndoManager =
  um_state :: UndoManagerState
  dontCompose :: bool
  undoStack :: "'op list"
  redoStack :: "'op list"
  maxItems :: nat

definition UndoManager_new :: "nat \<Rightarrow> 'op UndoManager" where
  "UndoManager_new n =
     \<lparr>um_state = NORMAL_STATE, dontCompose = False, undoStack = [], redoStack = [],
      maxItems = n\<rparr>"

text \<open>
  \<^verbatim>\<open>add\<close>.  In \<^verbatim>\<open>undoStack.push(operation.compose(undoStack.pop()))\<close> the argument
  is evaluated first: the top is popped, and when \<^verbatim>\<open>compose\<close> throws the stack stays
  without it.
\<close>

definition add ::
  "('op \<Rightarrow> 'op \<Rightarrow> 'op result) \<Rightarrow> 'op \<Rightarrow> bool \<Rightarrow> 'op UndoManager
     \<Rightarrow> unit result \<times> 'op UndoManager" where
  "add cmp operation compose um =
     (if um_state um = UNDOING_STATE then
        (Inr (), um\<lparr>redoStack := redoStack um @ [operation], dontCompose := True\<rparr>)
      else if um_state um = REDOING_STATE then
        (Inr (), um\<lparr>undoStack := undoStack um @ [operation], dontCompose := True\<rparr>)
      else if \<not> dontCompose um \<and> compose \<and> 0 < length (undoStack um) then
        (let popped = last (undoStack um);
             um1 = um\<lparr>undoStack := butlast (undoStack um)\<rparr>
         in case cmp operation popped of
              Inl e \<Rightarrow> (Inl e, um1)
            | Inr composed \<Rightarrow>
                (Inr (), um1\<lparr>undoStack := undoStack um1 @ [composed],
                              dontCompose := False, redoStack := []\<rparr>))
      else
        (let um1 = um\<lparr>undoStack := undoStack um @ [operation]\<rparr>;
             um2 = (if maxItems um1 < length (undoStack um1)
                    then um1\<lparr>undoStack := tl (undoStack um1)\<rparr> else um1)
         in (Inr (), um2\<lparr>dontCompose := False, redoStack := []\<rparr>)))"

text \<open>
  \<^verbatim>\<open>transform\<close>: each stack is assigned when its \<^verbatim>\<open>transformStack\<close> has
  returned, the undo stack first.
\<close>

definition UndoManager_transform ::
  "('op \<Rightarrow> 'op \<Rightarrow> ('op \<times> 'op) result) \<Rightarrow> ('op \<Rightarrow> bool) \<Rightarrow> 'op \<Rightarrow> 'op UndoManager
     \<Rightarrow> unit result \<times> 'op UndoManager" where
  "UndoManager_transform tr isNoop operation um =
     (case transformStack tr isNoop (undoStack um) operation of
        Inl e \<Rightarrow> (Inl e, um)
      | Inr newUndo \<Rightarrow>
          (let um1 = um\<lparr>undoStack := newUndo\<rparr> in
           case transformStack tr isNoop (redoStack um1) operation of
             Inl e \<Rightarrow> (Inl e, um1)
           | Inr newRedo \<Rightarrow> (Inr (), um1\<lparr>redoStack := newRedo\<rparr>)))"

text \<open>
  \<^verbatim>\<open>performUndo\<close> and \<^verbatim>\<open>performRedo\<close>.  The callback \<open>fn\<close> receives the popped
  operation and acts on the undo manager (it is expected to call \<^verbatim>\<open>add\<close>).  The
  state is set before the emptiness check, and set back only when \<open>fn\<close> has returned.
\<close>

definition performUndo ::
  "('op \<Rightarrow> 'op UndoManager \<Rightarrow> unit result \<times> 'op UndoManager) \<Rightarrow> 'op UndoManager
     \<Rightarrow> unit result \<times> 'op UndoManager" where
  "performUndo fn um =
     (let um1 = um\<lparr>um_state := UNDOING_STATE\<rparr> in
      if length (undoStack um1) = 0 then (Inl (Error ''undo not possible''), um1)
      else
        (case fn (last (undoStack um1)) (um1\<lparr>undoStack := butlast (undoStack um1)\<rparr>) of
           (Inl e, um2) \<Rightarrow> (Inl e, um2)
         | (Inr u, um2) \<Rightarrow> (Inr (), um2\<lparr>um_state := NORMAL_STATE\<rparr>)))"

definition performRedo ::
  "('op \<Rightarrow> 'op UndoManager \<Rightarrow> unit result \<times> 'op UndoManager) \<Rightarrow> 'op UndoManager
     \<Rightarrow> unit result \<times> 'op UndoManager" where
  "performRedo fn um =
     (let um1 = um\<lparr>um_state := REDOING_STATE\<rparr> in
      if length (redoStack um1) = 0 then (Inl (Error ''redo not possible''), um1)
      else
        (case fn (last (redoStack um1)) (um1\<lparr>redoStack := butlast (redoStack um1)\<rparr>) of
           (Inl e, um2) \<Rightarrow> (Inl e, um2)
         | (Inr u, um2) \<Rightarrow> (Inr (), um2\<lparr>um_state := NORMAL_STATE\<rparr>)))"

definition canUndo :: "'op UndoManager \<Rightarrow> bool" where
  "canUndo um = (length (undoStack um) \<noteq> 0)"

definition canRedo :: "'op UndoManager \<Rightarrow> bool" where
  "canRedo um = (length (redoStack um) \<noteq> 0)"

definition isUndoing :: "'op UndoManager \<Rightarrow> bool" where
  "isUndoing um = (um_state um = UNDOING_STATE)"

definition isRedoing :: "'op UndoManager \<Rightarrow> bool" where
  "isRedoing um = (um_state um = REDOING_STATE)"

subsection \<open>Sequences of calls\<close>

text \<open>
  A caller's use of an undo manager is a list of calls.  The callback handed to
  \<^verbatim>\<open>performUndo\<close> or \<^verbatim>\<open>performRedo\<close> is given by the operations it adds, in order,
  as a function of the popped operation: the documented callback adds one.  A run stops at
  the first call that throws.
\<close>

datatype 'op um_call =
    Add 'op bool
  | Transform 'op
  | PerformUndo "'op \<Rightarrow> ('op \<times> bool) list"
  | PerformRedo "'op \<Rightarrow> ('op \<times> bool) list"

fun add_each ::
  "('op \<Rightarrow> 'op \<Rightarrow> 'op result) \<Rightarrow> ('op \<times> bool) list \<Rightarrow> 'op UndoManager
     \<Rightarrow> unit result \<times> 'op UndoManager" where
  "add_each cmp [] um = (Inr (), um)"
| "add_each cmp (x # xs) um =
     (case add cmp (fst x) (snd x) um of
        (Inl e, um') \<Rightarrow> (Inl e, um')
      | (Inr u, um') \<Rightarrow> add_each cmp xs um')"

fun um_exec ::
  "('op \<Rightarrow> 'op \<Rightarrow> 'op result) \<Rightarrow> ('op \<Rightarrow> 'op \<Rightarrow> ('op \<times> 'op) result) \<Rightarrow> ('op \<Rightarrow> bool)
     \<Rightarrow> 'op um_call \<Rightarrow> 'op UndoManager \<Rightarrow> unit result \<times> 'op UndoManager" where
  "um_exec cmp tr isNoop (Add operation compose) um = add cmp operation compose um"
| "um_exec cmp tr isNoop (Transform operation) um = UndoManager_transform tr isNoop operation um"
| "um_exec cmp tr isNoop (PerformUndo g) um = performUndo (\<lambda>popped. add_each cmp (g popped)) um"
| "um_exec cmp tr isNoop (PerformRedo g) um = performRedo (\<lambda>popped. add_each cmp (g popped)) um"

fun um_run ::
  "('op \<Rightarrow> 'op \<Rightarrow> 'op result) \<Rightarrow> ('op \<Rightarrow> 'op \<Rightarrow> ('op \<times> 'op) result) \<Rightarrow> ('op \<Rightarrow> bool)
     \<Rightarrow> 'op um_call list \<Rightarrow> 'op UndoManager \<Rightarrow> unit result \<times> 'op UndoManager" where
  "um_run cmp tr isNoop [] um = (Inr (), um)"
| "um_run cmp tr isNoop (c # cs) um =
     (case um_exec cmp tr isNoop c um of
        (Inl e, um') \<Rightarrow> (Inl e, um')
      | (Inr u, um') \<Rightarrow> um_run cmp tr isNoop cs um')"

text \<open>The callback of a call adds at most one operation.\<close>

fun adds_at_most_one :: "'op um_call \<Rightarrow> bool" where
  "adds_at_most_one (Add operation compose) = True"
| "adds_at_most_one (Transform operation) = True"
| "adds_at_most_one (PerformUndo g) = (\<forall>popped. length (g popped) \<le> 1)"
| "adds_at_most_one (PerformRedo g) = (\<forall>popped. length (g popped) \<le> 1)"

subsection \<open>The stack transformation in the words of the spec\<close>

text \<open>
  "Iterate the stack from top to bottom, pairwise transforming each entry against the
  running \<open>op\<close>, updating \<open>op\<close> to the right side of the pair for the next iteration.
  Entries whose transformed form is a noop are dropped.  Reverse to restore original
  order."  \<open>transform_entries\<close> takes the entries from the top down and returns the
  transformed ones from the top down.
\<close>

primrec transform_entries ::
  "('op \<Rightarrow> 'op \<Rightarrow> ('op \<times> 'op) result) \<Rightarrow> ('op \<Rightarrow> bool) \<Rightarrow> 'op \<Rightarrow> 'op list
     \<Rightarrow> 'op list result" where
  "transform_entries tr isNoop operation [] = Inr []"
| "transform_entries tr isNoop operation (entry # below) =
     (case tr entry operation of
        Inl e \<Rightarrow> Inl e
      | Inr pair \<Rightarrow>
          (case transform_entries tr isNoop (snd pair) below of
             Inl e \<Rightarrow> Inl e
           | Inr rest \<Rightarrow> Inr (if isNoop (fst pair) then rest else fst pair # rest)))"

definition transformStack_spec ::
  "('op \<Rightarrow> 'op \<Rightarrow> ('op \<times> 'op) result) \<Rightarrow> ('op \<Rightarrow> bool) \<Rightarrow> 'op list \<Rightarrow> 'op
     \<Rightarrow> 'op list result" where
  "transformStack_spec tr isNoop stack operation =
     (case transform_entries tr isNoop operation (rev stack) of
        Inl e \<Rightarrow> Inl e
      | Inr fromTop \<Rightarrow> Inr (rev fromTop))"

subsection \<open>The bound on the stacks\<close>

text \<open>
  Between two calls of a caller the undo manager is in the normal state, and the two stacks
  together hold at most \<open>n\<close> entries, \<open>n\<close> being \<^verbatim>\<open>maxItems\<close>.
\<close>

definition within_bound :: "nat \<Rightarrow> 'op UndoManager \<Rightarrow> bool" where
  "within_bound n um =
     (um_state um = NORMAL_STATE \<and> maxItems um = n \<and>
      length (undoStack um) + length (redoStack um) \<le> n)"

section \<open>Range and Selection (src/unnamed/part_000)\<close>

record Range =
  anchor :: int
  head :: int

definition Range_equals :: "Range \<Rightarrow> Range \<Rightarrow> bool" where
  "Range_equals this other = (anchor this = anchor other \<and> head this = head other)"

definition isEmpty :: "Range \<Rightarrow> bool" where
  "isEmpty this = (anchor this = head this)"

text \<open>
  The closure \<^verbatim>\<open>transformIndex\<close> of \<^verbatim>\<open>Range.transform\<close>, over the array
  \<^verbatim>\<open>other.ops\<close>.  The loop variables are \<open>i\<close>, \<open>index\<close> and \<open>newIndex\<close>; in the
  last branch \<open>op\<close> is a number that is not positive, and \<open>newIndex\<close> is updated before
  \<open>index\<close>.  \<open>length (str op)\<close> stands for \<^verbatim>\<open>op.length\<close>: a string is its list of
  characters.
\<close>

function transformIndex_loop :: "component list \<Rightarrow> nat \<Rightarrow> int \<Rightarrow> int \<Rightarrow> int" where
  "transformIndex_loop ops i index newIndex =
     (if i < length ops then
        (let op = ops ! i;
             index1 =
               (if isRetain op then index - num op
                else if isInsert op then index
                else index + num op);
             newIndex1 =
               (if isRetain op then newIndex
                else if isInsert op then newIndex + int (length (str op))
                else newIndex - min index (- num op))
         in if index1 < 0 then newIndex1
            else transformIndex_loop ops (i + 1) index1 newIndex1)
      else newIndex)"
  by pat_completeness auto
termination
  by (relation "measure (\<lambda>(ops, i, index, newIndex). length ops - i)") auto

declare transformIndex_loop.simps [simp del]

definition transformIndex :: "component list \<Rightarrow> int \<Rightarrow> int" where
  "transformIndex ops index = transformIndex_loop ops 0 index index"

text \<open>
  \<^verbatim>\<open>Range.transform\<close>; its argument \<open>ops\<close> is \<^verbatim>\<open>other.ops\<close>.
\<close>

definition Range_transform :: "component list \<Rightarrow> Range \<Rightarrow> Range" where
  "Range_transform ops this =
     (let newAnchor = transformIndex ops (anchor this) in
      if anchor this = head this then \<lparr>anchor = newAnchor, head = newAnchor\<rparr>
      else \<lparr>anchor = newAnchor, head = transformIndex ops (head this)\<rparr>)"

subsection \<open>The position rule in the words of the spec\<close>

text \<open>
  The components as the tagged variant of the spec, and the rule of section 4.5: walking
  the components with \<open>index\<close>, the remaining offset into the base document, a retain of
  \<open>n\<close> takes \<open>n\<close> from \<open>index\<close>, an insert of \<open>s\<close> adds the length of \<open>s\<close> to
  \<open>newIndex\<close>, a delete of \<open>n\<close> takes \<open>min index n\<close> from \<open>newIndex\<close> and \<open>n\<close> from
  \<open>index\<close>, and the walk ends once \<open>index\<close> is negative.
\<close>

datatype atom = Retain int | Insert string | Delete int

fun as_atom :: "component \<Rightarrow> atom" where
  "as_atom (Num n) = (if 0 < n then Retain n else Delete (- n))"
| "as_atom (Str s) = Insert s"

fun position_through :: "atom list \<Rightarrow> int \<Rightarrow> int \<Rightarrow> int" where
  "position_through [] index newIndex = newIndex"
| "position_through (Retain n # rest) index newIndex =
     (if index - n < 0 then newIndex else position_through rest (index - n) newIndex)"
| "position_through (Insert s # rest) index newIndex =
     (if index < 0 then newIndex + int (length s)
      else position_through rest index (newIndex + int (length s)))"
| "position_through (Delete n # rest) index newIndex =
     (if index - n < 0 then newIndex - min index n
      else position_through rest (index - n) (newIndex - min index n))"

subsection \<open>Selection\<close>

text \<open>
  A selection holds a reference to its array of ranges, and \<^verbatim>\<open>Array.prototype.sort\<close>
  sorts the array it is called on in place and returns that same array.  The model keeps
  the arrays in a store, from addresses to lists of ranges; the field \<open>ranges\<close> of a
  selection is the address of its array, so that a write through one reference is seen
  through every other.
\<close>

type_synonym heap = "nat \<Rightarrow> Range list"

record Selection =
  ranges :: nat

definition compareRanges :: "Range \<Rightarrow> Range \<Rightarrow> int" where
  "compareRanges a b =
     (if anchor a < anchor b then - 1
      else if anchor a = anchor b \<and> head a < head b then - 1
      else 1)"

text \<open>
  \<^verbatim>\<open>sort\<close> with a comparison function is a stable insertion sort here: \<open>x\<close> goes
  before \<open>y\<close> when the function answers at most 0 for \<open>(x, y)\<close>.  The function of
  \<^verbatim>\<open>sortRanges\<close> never answers 0 and answers 1 for two ranges with the same anchor
  and head; such ranges are equal values, so every sort that orders by the sign of the
  answers gives the same list.
\<close>

fun sort_insert :: "('a \<Rightarrow> 'a \<Rightarrow> int) \<Rightarrow> 'a \<Rightarrow> 'a list \<Rightarrow> 'a list" where
  "sort_insert compareFn x [] = [x]"
| "sort_insert compareFn x (y # ys) =
     (if compareFn x y \<le> 0 then x # y # ys else y # sort_insert compareFn x ys)"

definition Array_sort :: "('a \<Rightarrow> 'a \<Rightarrow> int) \<Rightarrow> 'a list \<Rightarrow> 'a list" where
  "Array_sort compareFn xs = foldr (sort_insert compareFn) xs []"

definition sortRanges :: "heap \<Rightarrow> nat \<Rightarrow> heap" where
  "sortRanges h a = h(a := Array_sort compareRanges (h a))"

text \<open>
  \<^verbatim>\<open>Selection.equals\<close>: \<^verbatim>\<open>sortedRanges1\<close> and \<^verbatim>\<open>sortedRanges2\<close> are the
  arrays of the two selections themselves, as \<^verbatim>\<open>sortRanges\<close> returns them.  The
  call returns its answer and the store it leaves.
\<close>

function equals_loop :: "Range list \<Rightarrow> Range list \<Rightarrow> nat \<Rightarrow> bool" where
  "equals_loop sortedRanges1 sortedRanges2 i =
     (if i < length sortedRanges1 then
        (if \<not> Range_equals (sortedRanges1 ! i) (sortedRanges2 ! i) then False
         else equals_loop sortedRanges1 sortedRanges2 (i + 1))
      else True)"
  by pat_completeness auto
termination
  by (relation "measure (\<lambda>(sortedRanges1, sortedRanges2, i). length sortedRanges1 - i)") auto

declare equals_loop.simps [simp del]

definition Selection_equals :: "heap \<Rightarrow> Selection \<Rightarrow> Selection \<Rightarrow> bool \<times> heap" where
  "Selection_equals h this other =
     (if length (h (ranges this)) \<noteq> length (h (ranges other)) then (False, h)
      else
        (let h1 = sortRanges h (ranges this);
             h2 = sortRanges h1 (ranges other)
         in (equals_loop (h2 (ranges this)) (h2 (ranges other)) 0, h2)))"

section \<open>Client: theorems\<close>

text \<open>
  C9.  When \<^verbatim>\<open>serverAck\<close> is called on a client in the Synchronized state, the call
  throws the error "There is no pending operation.", and the client is left with its
  revision incremented by one: the increment made before the state's method threw is not
  rolled back.  The state and the recorded callbacks are as before.
\<close>

theorem serverAck_Synchronized_throws_after_increment:
  assumes "state client = Synchronized"
  shows "Client_serverAck client =
           (Inl (Error ''There is no pending operation.''),
            client\<lparr>revision := revision client + 1\<rparr>)"
  using assms by (simp add: Client_serverAck_def)

theorem serverAck_Synchronized_throws_after_increment_witness:
  "state (Client_new 7 :: component list Client) = Synchronized \<and>
   Client_serverAck (Client_new 7 :: component list Client) =
     (Inl (Error ''There is no pending operation.''),
      \<lparr>state = Synchronized, revision = 8, calls = []\<rparr>)"
  using serverAck_Synchronized_throws_after_increment [of "Client_new 7 :: component list Client"]
  by (simp add: Client_new_def)

text \<open>
  C1.  The claim says that \<^verbatim>\<open>applyServer\<close> in the state AwaitingWithBuffer(o, b)
  moves the client to AwaitingWithBuffer(o', b').  The code computes both pairs and calls
  \<^verbatim>\<open>applyOperation\<close> with \<open>s''\<close>, and then throws a \<^verbatim>\<open>ReferenceError\<close>
  where it constructs the next state.  The theorem runs scenario S4 on the document
  \<open>xy\<close>: \<open>A\<close> inserts \<open>a\<close> in front, \<open>B\<close> inserts \<open>b\<close> at the end of \<open>axy\<close>, the
  server's \<open>C\<close> inserts \<open>c\<close> at the end of \<open>xy\<close>; \<open>transform\<close> is given by its two
  values on these operations.  The call throws; the client keeps the state
  AwaitingWithBuffer(A, B) with the operations that were not transformed, at revision 8.
\<close>

theorem applyServer_AwaitingWithBuffer_throws:
  "Client_applyServer
     (\<lambda>a b.
        if (a, b) = ([Str ''a'', Num 2], [Num 2, Str ''c''])
        then Inr ([Str ''a'', Num 3], [Num 3, Str ''c''])
        else if (a, b) = ([Num 3, Str ''b''], [Num 3, Str ''c''])
        then Inr ([Num 3, Str ''b'', Num 1], [Num 4, Str ''c''])
        else Inl (Error ''not tabulated''))
     [Num 2, Str ''c'']
     (snd (Client_applyClient (\<lambda>a b. Inl (Error ''not called'')) [Num 3, Str ''b'']
        (snd (Client_applyClient (\<lambda>a b. Inl (Error ''not called'')) [Str ''a'', Num 2]
           (Client_new 7))))) =
   (Inl (ReferenceError ''AwaitingWithBuffer is not defined''),
    \<lparr>state = AwaitingConfirmWithBuffer [Str ''a'', Num 2] [Num 3, Str ''b''],
     revision = 8,
     calls = [SendOperation 7 [Str ''a'', Num 2], ApplyOperation [Num 4, Str ''c'']]\<rparr>)"
  by (simp add: Client_applyServer_def Client_applyClient_def Client_new_def setState_def
      sendOperation_def applyOperation_def)

text \<open>
  The same for every client in that state and every \<open>transform\<close>: the call never returns
  normally, and the state it leaves is the one it found.
\<close>

lemma applyServer_AwaitingWithBuffer_never_returns:
  "isl (fst (Client_applyServer tr s (client\<lparr>state := AwaitingConfirmWithBuffer out buf\<rparr>))) \<and>
   state (snd (Client_applyServer tr s (client\<lparr>state := AwaitingConfirmWithBuffer out buf\<rparr>))) =
     AwaitingConfirmWithBuffer out buf"
  by (simp add: Client_applyServer_def applyOperation_def Let_def split: sum.splits)

text \<open>
  The transition of the spec's table for AwaitingConfirm(o) is the one the code makes.
\<close>

lemma applyServer_AwaitingConfirm:
  "tr out s = Inr (out', s') \<Longrightarrow>
   Client_applyServer tr s (client\<lparr>state := AwaitingConfirm out\<rparr>) =
     (Inr (), client\<lparr>state := AwaitingConfirm out', revision := revision client + 1,
                     calls := calls client @ [ApplyOperation s']\<rparr>)"
  by (simp add: Client_applyServer_def applyOperation_def setState_def)

text \<open>
  C2.  The claim says that \<^verbatim>\<open>serverReconnect\<close> is a no-op in the Synchronized state.
  The code calls the method \<^verbatim>\<open>resend\<close>, which the Synchronized state does not have:
  on a client in the Synchronized state, as every client is when constructed, the call
  throws a \<^verbatim>\<open>TypeError\<close>.  It sends nothing and leaves the client as it was.
\<close>

theorem serverReconnect_Synchronized_throws:
  "Client_serverReconnect (Client_new r) =
     (Inl (TypeError ''this.state.resend is not a function''), Client_new r)"
  by (simp add: Client_serverReconnect_def Client_new_def)

text \<open>
  In the two other states the call sends the outstanding operation with the current
  revision and changes neither the state nor the revision.
\<close>

lemma serverReconnect_resends:
  "state client = AwaitingConfirm out \<or> state client = AwaitingConfirmWithBuffer out buf \<Longrightarrow>
   Client_serverReconnect client =
     (Inr (), client\<lparr>calls := calls client @ [SendOperation (revision client) out]\<rparr>)"
  by (auto simp: Client_serverReconnect_def sendOperation_def)

section \<open>Server: theorems\<close>

lemma receiveOperation_loop_drop:
  "receiveOperation_loop tr hs i operation = transform_against tr operation (drop i hs)"
proof (induction tr hs i operation rule: receiveOperation_loop.induct)
  case (1 tr hs i operation)
  show ?case
  proof (cases "i < length hs")
    case True
    then have d: "drop i hs = hs ! i # drop (Suc i) hs"
      by (simp add: Cons_nth_drop_Suc)
    show ?thesis
      using True "1.IH" d
      by (subst receiveOperation_loop.simps) (simp split: sum.splits)
  next
    case False
    then show ?thesis
      by (subst receiveOperation_loop.simps) simp
  qed
qed

lemma receiveOperation_loop_all:
  "receiveOperation_loop tr hs 0 operation = transform_against tr operation hs"
  by (simp add: receiveOperation_loop_drop)

text \<open>
  C3.  \<^verbatim>\<open>receiveOperation(revision, op)\<close> throws ("operation revision not in
  history", the spec's RevisionOutOfRange) when \<open>revision < 0\<close> or \<open>revision\<close> exceeds the
  length of the history, leaving the server as it was.  Otherwise, when the operation,
  transformed against each operation of \<open>operations[revision..]\<close> in order (keeping the
  first component of each pair), is \<open>op'\<close> and applies to the document giving \<open>doc'\<close>,
  the call returns \<open>op'\<close>, the document becomes \<open>doc'\<close> and \<open>op'\<close> is appended to the
  history.
\<close>

theorem receiveOperation_correct:
  "(r < 0 \<or> int (length (operations server)) < r \<longrightarrow>
      receiveOperation tr ap r operation server =
        (Inl (Error ''operation revision not in history''), server)) \<and>
   (0 \<le> r \<and> r \<le> int (length (operations server)) \<and>
    transform_against tr operation (drop (nat r) (operations server)) = Inr operation' \<and>
    ap operation' (document server) = Inr doc' \<longrightarrow>
      receiveOperation tr ap r operation server =
        (Inr operation',
         \<lparr>document = doc', operations = operations server @ [operation']\<rparr>))"
proof (intro conjI impI)
  assume "r < 0 \<or> int (length (operations server)) < r"
  then show "receiveOperation tr ap r operation server =
          (Inl (Error ''operation revision not in history''), server)"
    by (simp add: receiveOperation_def)
next
  assume h: "0 \<le> r \<and> r \<le> int (length (operations server)) \<and>
    transform_against tr operation (drop (nat r) (operations server)) = Inr operation' \<and>
    ap operation' (document server) = Inr doc'"
  then have "\<not> (r < 0 \<or> int (length (operations server)) < r)"
    by simp
  then show "receiveOperation tr ap r operation server =
          (Inr operation',
           \<lparr>document = doc', operations = operations server @ [operation']\<rparr>)"
    using h by (simp add: receiveOperation_def receiveOperation_loop_all)
qed

text \<open>
  The witness runs the server of scenario S5 with operations written as their component
  arrays: the history holds one operation, \<open>transform\<close> is a function that marks the
  first component of its pair and \<open>apply\<close> appends to the document.  A frame sent at
  revision 5 is refused; a frame sent at revision 0 is transformed against the one
  operation of the history, applied and appended.
\<close>

theorem receiveOperation_correct_witness:
  "receiveOperation (\<lambda>a b. Inr (a @ [Num 2], b)) (\<lambda>a d. Inr (d @ ''yo'')) 5 [Str ''yo'']
       \<lparr>document = ''hi'', operations = [[Str ''hi'']]\<rparr> =
     (Inl (Error ''operation revision not in history''),
      \<lparr>document = ''hi'', operations = [[Str ''hi'']]\<rparr>) \<and>
   receiveOperation (\<lambda>a b. Inr (a @ [Num 2], b)) (\<lambda>a d. Inr (d @ ''yo'')) 0 [Str ''yo'']
       \<lparr>document = ''hi'', operations = [[Str ''hi'']]\<rparr> =
     (Inr [Str ''yo'', Num 2],
      \<lparr>document = ''hiyo'', operations = [[Str ''hi''], [Str ''yo'', Num 2]]\<rparr>)"
  using receiveOperation_correct [where r = 5 and tr = "\<lambda>a b. Inr (a @ [Num 2], b)"
      and ap = "\<lambda>a d. Inr (d @ ''yo'')" and operation = "[Str ''yo'']"
      and server = "\<lparr>document = ''hi'', operations = [[Str ''hi'']]\<rparr>"]
    receiveOperation_correct [where r = 0 and tr = "\<lambda>a b. Inr (a @ [Num 2], b)"
      and ap = "\<lambda>a d. Inr (d @ ''yo'')" and operation = "[Str ''yo'']"
      and server = "\<lparr>document = ''hi'', operations = [[Str ''hi'']]\<rparr>"
      and operation' = "[Str ''yo'', Num 2]" and doc' = "''hiyo''"]
  by simp

text \<open>
  C10.  Whenever \<^verbatim>\<open>receiveOperation\<close> throws, be it at the revision check, in a
  \<^verbatim>\<open>transform\<close> or in \<^verbatim>\<open>apply\<close>, the server's document and history are what
  they were before the call; and when it returns, \<^verbatim>\<open>apply\<close> has succeeded on the old
  document, giving the new one, and the history has grown by the returned operation.
\<close>

theorem receiveOperation_throw_leaves_server:
  "(fst (receiveOperation tr ap r operation server) = Inl e \<longrightarrow>
      snd (receiveOperation tr ap r operation server) = server) \<and>
   (fst (receiveOperation tr ap r operation server) = Inr operation' \<longrightarrow>
      ap operation' (document server) =
        Inr (document (snd (receiveOperation tr ap r operation server))) \<and>
      operations (snd (receiveOperation tr ap r operation server)) =
        operations server @ [operation'])"
  by (auto simp: receiveOperation_def Let_def split: if_splits sum.splits)

text \<open>
  In the first run the revision check passes and \<open>apply\<close> refuses the operation because
  its base length 5 is not the length of the document; in the second \<open>apply\<close> accepts.
\<close>

theorem receiveOperation_throw_leaves_server_witness:
  "fst (receiveOperation (\<lambda>a b. Inr (a, b))
          (\<lambda>a d. if length d = 5 then Inr d else Inl (Error ''base length mismatch''))
          1 [Num 5] \<lparr>document = ''hi'', operations = [[Str ''hi'']]\<rparr>) =
     Inl (Error ''base length mismatch'') \<and>
   snd (receiveOperation (\<lambda>a b. Inr (a, b))
          (\<lambda>a d. if length d = 5 then Inr d else Inl (Error ''base length mismatch''))
          1 [Num 5] \<lparr>document = ''hi'', operations = [[Str ''hi'']]\<rparr>) =
     \<lparr>document = ''hi'', operations = [[Str ''hi'']]\<rparr> \<and>
   fst (receiveOperation (\<lambda>a b. Inr (a, b))
          (\<lambda>a d. if length d = 2 then Inr (d @ ''!'') else Inl (Error ''base length mismatch''))
          1 [Num 2, Str ''!''] \<lparr>document = ''hi'', operations = [[Str ''hi'']]\<rparr>) =
     Inr [Num 2, Str ''!''] \<and>
   snd (receiveOperation (\<lambda>a b. Inr (a, b))
          (\<lambda>a d. if length d = 2 then Inr (d @ ''!'') else Inl (Error ''base length mismatch''))
          1 [Num 2, Str ''!''] \<lparr>document = ''hi'', operations = [[Str ''hi'']]\<rparr>) =
     \<lparr>document = ''hi!'', operations = [[Str ''hi''], [Num 2, Str ''!'']]\<rparr>"
proof -
  have f: "fst (receiveOperation (\<lambda>a b. Inr (a, b))
          (\<lambda>a d. if length d = 5 then Inr d else Inl (Error ''base length mismatch''))
          1 [Num 5] \<lparr>document = ''hi'', operations = [[Str ''hi'']]\<rparr>) =
     Inl (Error ''base length mismatch'')"
    by (simp add: receiveOperation_def receiveOperation_loop.simps)
  have g: "fst (receiveOperation (\<lambda>a b. Inr (a, b))
          (\<lambda>a d. if length d = 2 then Inr (d @ ''!'') else Inl (Error ''base length mismatch''))
          1 [Num 2, Str ''!''] \<lparr>document = ''hi'', operations = [[Str ''hi'']]\<rparr>) =
     Inr [Num 2, Str ''!'']"
    by (simp add: receiveOperation_def receiveOperation_loop.simps)
  have s: "snd (receiveOperation (\<lambda>a b. Inr (a, b))
          (\<lambda>a d. if length d = 5 then Inr d else Inl (Error ''base length mismatch''))
          1 [Num 5] \<lparr>document = ''hi'', operations = [[Str ''hi'']]\<rparr>) =
     \<lparr>document = ''hi'', operations = [[Str ''hi'']]\<rparr>"
    using f receiveOperation_throw_leaves_server
      [where tr = "\<lambda>a b. Inr (a, b)"
         and ap = "\<lambda>a d. if length d = 5 then Inr d else Inl (Error ''base length mismatch'')"
         and r = 1 and operation = "[Num 5]"
         and server = "\<lparr>document = ''hi'', operations = [[Str ''hi'']]\<rparr>"
         and e = "Error ''base length mismatch''"]
    by blast
  have t: "(if length (document \<lparr>document = ''hi'', operations = [[Str ''hi'']]\<rparr>) = 2
        then Inr (document \<lparr>document = ''hi'', operations = [[Str ''hi'']]\<rparr> @ ''!'')
        else Inl (Error ''base length mismatch'')) =
       Inr (document (snd (receiveOperation (\<lambda>a b. Inr (a, b))
          (\<lambda>a d. if length d = 2 then Inr (d @ ''!'') else Inl (Error ''base length mismatch''))
          1 [Num 2, Str ''!''] \<lparr>document = ''hi'', operations = [[Str ''hi'']]\<rparr>))) \<and>
     operations (snd (receiveOperation (\<lambda>a b. Inr (a, b))
          (\<lambda>a d. if length d = 2 then Inr (d @ ''!'') else Inl (Error ''base length mismatch''))
          1 [Num 2, Str ''!''] \<lparr>document = ''hi'', operations = [[Str ''hi'']]\<rparr>)) =
       operations \<lparr>document = ''hi'', operations = [[Str ''hi'']]\<rparr> @ [[Num 2, Str ''!'']]"
    using g receiveOperation_throw_leaves_server
      [where tr = "\<lambda>a b. Inr (a, b)"
         and ap = "\<lambda>a d. if length d = 2 then Inr (d @ ''!'')
                          else Inl (Error ''base length mismatch'')"
         and r = 1 and operation = "[Num 2, Str ''!'']"
         and server = "\<lparr>document = ''hi'', operations = [[Str ''hi'']]\<rparr>"
         and operation' = "[Num 2, Str ''!'']"]
    by blast
  have u: "snd (receiveOperation (\<lambda>a b. Inr (a, b))
          (\<lambda>a d. if length d = 2 then Inr (d @ ''!'') else Inl (Error ''base length mismatch''))
          1 [Num 2, Str ''!''] \<lparr>document = ''hi'', operations = [[Str ''hi'']]\<rparr>) =
     \<lparr>document = ''hi!'', operations = [[Str ''hi''], [Num 2, Str ''!'']]\<rparr>"
    using t
    by (cases "snd (receiveOperation (\<lambda>a b. Inr (a, b))
          (\<lambda>a d. if length d = 2 then Inr (d @ ''!'') else Inl (Error ''base length mismatch''))
          1 [Num 2, Str ''!''] \<lparr>document = ''hi'', operations = [[Str ''hi'']]\<rparr>)") simp
  from f s g u show ?thesis
    by (intro conjI)
qed

section \<open>UndoManager: theorems\<close>

subsection \<open>transformStack\<close>

lemma transformStack_loop_entries:
  "k \<le> length stack \<Longrightarrow>
   transformStack_loop tr isNoop stack (int k - 1) operation acc =
     (case transform_entries tr isNoop operation (rev (take k stack)) of
        Inl e \<Rightarrow> Inl e
      | Inr fromTop \<Rightarrow> Inr (acc @ fromTop))"
proof (induction k arbitrary: operation acc)
  case 0
  then show ?case
    by (subst transformStack_loop.simps) simp
next
  case (Suc k)
  then have k: "k < length stack" and k': "k \<le> length stack"
    by simp_all
  have t: "rev (take (Suc k) stack) = stack ! k # rev (take k stack)"
    using k by (simp add: take_Suc_conv_app_nth)
  show ?case
  proof (cases "tr (stack ! k) operation")
    case (Inl e)
    then show ?thesis
      by (subst transformStack_loop.simps) (simp add: t)
  next
    case (Inr pair)
    show ?thesis
      using Inr Suc.IH [OF k', of "snd pair"]
      by (subst transformStack_loop.simps) (simp add: t split: sum.splits)
  qed
qed

lemma transformStack_eq_spec:
  "transformStack tr isNoop stack operation = transformStack_spec tr isNoop stack operation"
  using transformStack_loop_entries [of "length stack" stack tr isNoop operation "[]"]
  by (simp add: transformStack_def transformStack_spec_def split: sum.splits)

lemma transform_entries_length:
  "transform_entries tr isNoop operation es = Inr r \<Longrightarrow> length r \<le> length es"
proof (induction es arbitrary: operation r)
  case Nil
  then show ?case by simp
next
  case (Cons entry below)
  from Cons.prems obtain pair rest
    where "transform_entries tr isNoop (snd pair) below = Inr rest"
      and "r = (if isNoop (fst pair) then rest else fst pair # rest)"
    by (auto split: sum.splits)
  with Cons.IH [of "snd pair" rest] show ?case
    by (simp split: if_splits)
qed

lemma transformStack_length:
  "transformStack tr isNoop stack operation = Inr r \<Longrightarrow> length r \<le> length stack"
  using transform_entries_length [of tr isNoop operation "rev stack"]
  by (auto simp: transformStack_eq_spec transformStack_spec_def split: sum.splits)

text \<open>
  C6.  \<^verbatim>\<open>UndoManager.transform(op)\<close> rewrites the undo stack and then the redo stack,
  each against the same \<open>op\<close>, as the spec words it: the entries are taken from the top
  down, each is transformed against the running operation with the entry as first
  argument, the second component of the pair is the running operation for the entry below,
  an entry whose transformed form is a noop is dropped, and the result is reversed into
  the order of the stack.  A \<^verbatim>\<open>transform\<close> that throws leaves a stack unassigned.
\<close>

theorem UndoManager_transform_spec:
  "UndoManager_transform tr isNoop operation um =
     (case transformStack_spec tr isNoop (undoStack um) operation of
        Inl e \<Rightarrow> (Inl e, um)
      | Inr newUndo \<Rightarrow>
          (case transformStack_spec tr isNoop (redoStack um) operation of
             Inl e \<Rightarrow> (Inl e, um\<lparr>undoStack := newUndo\<rparr>)
           | Inr newRedo \<Rightarrow> (Inr (), um\<lparr>undoStack := newUndo, redoStack := newRedo\<rparr>)))"
  by (simp add: UndoManager_transform_def transformStack_eq_spec Let_def split: sum.splits)

text \<open>
  On a stack of three entries, with a \<open>transform\<close> that appends the running operation to
  the entry and lengthens the running operation, the top entry meets \<open>op\<close>, the middle
  one meets the operation returned for the top and is dropped as a noop, and the bottom one
  meets the operation returned for the middle.
\<close>

theorem UndoManager_transform_spec_witness:
  "UndoManager_transform (\<lambda>a b. Inr (a @ b, b @ [Num 1])) (\<lambda>a. a = [Num 2, Num 0, Num 1])
     [Num 0]
     \<lparr>um_state = NORMAL_STATE, dontCompose = False, undoStack = [[Num 1], [Num 2], [Num 3]],
      redoStack = [[Num 4]], maxItems = 5\<rparr> =
   (Inr (),
    \<lparr>um_state = NORMAL_STATE, dontCompose = False,
     undoStack = [[Num 1, Num 0, Num 1, Num 1], [Num 3, Num 0]],
     redoStack = [[Num 4, Num 0]], maxItems = 5\<rparr>)"
  using UndoManager_transform_spec
    [where tr = "\<lambda>a b. Inr (a @ b, b @ [Num 1])" and isNoop = "\<lambda>a. a = [Num 2, Num 0, Num 1]"
       and operation = "[Num 0]"
       and um = "\<lparr>um_state = NORMAL_STATE, dontCompose = False,
                  undoStack = [[Num 1], [Num 2], [Num 3]], redoStack = [[Num 4]],
                  maxItems = 5\<rparr>"]
  by (simp add: transformStack_spec_def)

subsection \<open>add\<close>

text \<open>
  C5.  \<^verbatim>\<open>add(op, compose)\<close>: while undoing it pushes \<open>op\<close> on the redo stack and sets
  \<open>dontCompose\<close>; while redoing it pushes \<open>op\<close> on the undo stack and sets
  \<open>dontCompose\<close>; in the normal state, if \<open>dontCompose\<close> is false, \<open>compose\<close> is true
  and the undo stack is not empty, the top \<open>t\<close> is replaced by \<open>op.compose(t)\<close>, and
  otherwise \<open>op\<close> is pushed (and the oldest entry dropped when the stack then exceeds
  \<open>maxItems\<close>); in the normal state the redo stack is cleared and \<open>dontCompose\<close> reset.
  So, with \<open>dontCompose\<close> set, a first normal add with \<open>compose\<close> true pushes its
  operation, and a second one composes with it.
\<close>

theorem add_by_mode:
  "(um_state um = UNDOING_STATE \<longrightarrow>
      add cmp operation compose um =
        (Inr (), um\<lparr>redoStack := redoStack um @ [operation], dontCompose := True\<rparr>)) \<and>
   (um_state um = REDOING_STATE \<longrightarrow>
      add cmp operation compose um =
        (Inr (), um\<lparr>undoStack := undoStack um @ [operation], dontCompose := True\<rparr>)) \<and>
   (um_state um = NORMAL_STATE \<and> \<not> dontCompose um \<and> compose \<and> undoStack um \<noteq> [] \<and>
    cmp operation (last (undoStack um)) = Inr composed \<longrightarrow>
      add cmp operation compose um =
        (Inr (), um\<lparr>undoStack := butlast (undoStack um) @ [composed],
                   dontCompose := False, redoStack := []\<rparr>)) \<and>
   (um_state um = NORMAL_STATE \<and> (dontCompose um \<or> \<not> compose \<or> undoStack um = []) \<longrightarrow>
      add cmp operation compose um =
        (Inr (), um\<lparr>undoStack :=
                     (if maxItems um < length (undoStack um @ [operation])
                      then tl (undoStack um @ [operation]) else undoStack um @ [operation]),
                   dontCompose := False, redoStack := []\<rparr>)) \<and>
   (um_state um = NORMAL_STATE \<and> dontCompose um \<and> 0 < maxItems um \<and>
    cmp operation_b operation = Inr composed_b \<longrightarrow>
      fst (add cmp operation True um) = Inr () \<and>
      last (undoStack (snd (add cmp operation True um))) = operation \<and>
      add cmp operation_b True (snd (add cmp operation True um)) =
        (Inr (), (snd (add cmp operation True um))
                   \<lparr>undoStack := butlast (undoStack (snd (add cmp operation True um)))
                                   @ [composed_b]\<rparr>))"
proof (intro conjI impI)
  assume "um_state um = UNDOING_STATE"
  then show "add cmp operation compose um =
        (Inr (), um\<lparr>redoStack := redoStack um @ [operation], dontCompose := True\<rparr>)"
    by (simp add: add_def)
next
  assume "um_state um = REDOING_STATE"
  then show "add cmp operation compose um =
        (Inr (), um\<lparr>undoStack := undoStack um @ [operation], dontCompose := True\<rparr>)"
    by (simp add: add_def)
next
  assume "um_state um = NORMAL_STATE \<and> \<not> dontCompose um \<and> compose \<and> undoStack um \<noteq> [] \<and>
    cmp operation (last (undoStack um)) = Inr composed"
  then show "add cmp operation compose um =
        (Inr (), um\<lparr>undoStack := butlast (undoStack um) @ [composed],
                   dontCompose := False, redoStack := []\<rparr>)"
    by (simp add: add_def Let_def)
next
  assume "um_state um = NORMAL_STATE \<and> (dontCompose um \<or> \<not> compose \<or> undoStack um = [])"
  then show "add cmp operation compose um =
        (Inr (), um\<lparr>undoStack :=
                     (if maxItems um < length (undoStack um @ [operation])
                      then tl (undoStack um @ [operation]) else undoStack um @ [operation]),
                   dontCompose := False, redoStack := []\<rparr>)"
    by (auto simp: add_def Let_def)
next
  assume h: "um_state um = NORMAL_STATE \<and> dontCompose um \<and> 0 < maxItems um \<and>
    cmp operation_b operation = Inr composed_b"
  define um1 where "um1 = snd (add cmp operation True um)"
  have a1: "add cmp operation True um =
      (Inr (), um\<lparr>undoStack :=
                     (if maxItems um < length (undoStack um @ [operation])
                      then tl (undoStack um @ [operation]) else undoStack um @ [operation]),
                   dontCompose := False, redoStack := []\<rparr>)"
    using h by (simp add: add_def Let_def)
  show "fst (add cmp operation True um) = Inr ()"
    by (simp add: a1)
  have l: "last (undoStack um1) = operation" and ne: "undoStack um1 \<noteq> []"
    using h by (cases "undoStack um"; simp add: um1_def a1)+
  from l show "last (undoStack (snd (add cmp operation True um))) = operation"
    by (simp add: um1_def)
  have s: "um_state um1 = NORMAL_STATE" "\<not> dontCompose um1" "redoStack um1 = []"
    using h by (simp_all add: um1_def a1)
  have "add cmp operation_b True um1 =
      (Inr (), um1\<lparr>undoStack := butlast (undoStack um1) @ [composed_b]\<rparr>)"
    using h l ne s by (simp add: add_def Let_def)
  then show "add cmp operation_b True (snd (add cmp operation True um)) =
        (Inr (), (snd (add cmp operation True um))
                   \<lparr>undoStack := butlast (undoStack (snd (add cmp operation True um)))
                                   @ [composed_b]\<rparr>)"
    by (simp add: um1_def)
qed

theorem add_by_mode_witness:
  "add (\<lambda>a b. Inr (a @ b)) [Num 2] True
     \<lparr>um_state = UNDOING_STATE, dontCompose = False, undoStack = [[Num 1]], redoStack = [],
      maxItems = 2\<rparr> =
     (Inr (), \<lparr>um_state = UNDOING_STATE, dontCompose = True, undoStack = [[Num 1]],
               redoStack = [[Num 2]], maxItems = 2\<rparr>) \<and>
   add (\<lambda>a b. Inr (a @ b)) [Num 2] True
     \<lparr>um_state = REDOING_STATE, dontCompose = False, undoStack = [[Num 1]], redoStack = [],
      maxItems = 2\<rparr> =
     (Inr (), \<lparr>um_state = REDOING_STATE, dontCompose = True, undoStack = [[Num 1], [Num 2]],
               redoStack = [], maxItems = 2\<rparr>) \<and>
   add (\<lambda>a b. Inr (a @ b)) [Num 2] True
     \<lparr>um_state = NORMAL_STATE, dontCompose = False, undoStack = [[Num 1]],
      redoStack = [[Num 9]], maxItems = 2\<rparr> =
     (Inr (), \<lparr>um_state = NORMAL_STATE, dontCompose = False, undoStack = [[Num 2, Num 1]],
               redoStack = [], maxItems = 2\<rparr>) \<and>
   add (\<lambda>a b. Inr (a @ b)) [Num 2] True
     \<lparr>um_state = NORMAL_STATE, dontCompose = True, undoStack = [[Num 1]],
      redoStack = [[Num 9]], maxItems = 1\<rparr> =
     (Inr (), \<lparr>um_state = NORMAL_STATE, dontCompose = False, undoStack = [[Num 2]],
               redoStack = [], maxItems = 1\<rparr>) \<and>
   add (\<lambda>a b. Inr (a @ b)) [Num 3] True
     (snd (add (\<lambda>a b. Inr (a @ b)) [Num 2] True
        \<lparr>um_state = NORMAL_STATE, dontCompose = True, undoStack = [[Num 1]],
         redoStack = [[Num 9]], maxItems = 2\<rparr>)) =
     (Inr (), \<lparr>um_state = NORMAL_STATE, dontCompose = False,
               undoStack = [[Num 1], [Num 3, Num 2]], redoStack = [], maxItems = 2\<rparr>)"
proof -
  have 1: "add (\<lambda>a b. Inr (a @ b)) [Num 2] True
     \<lparr>um_state = UNDOING_STATE, dontCompose = False, undoStack = [[Num 1]], redoStack = [],
      maxItems = 2\<rparr> =
     (Inr (), \<lparr>um_state = UNDOING_STATE, dontCompose = True, undoStack = [[Num 1]],
               redoStack = [[Num 2]], maxItems = 2\<rparr>)"
    using add_by_mode [where cmp = "\<lambda>a b. Inr (a @ b)" and operation = "[Num 2]"
        and compose = True
        and um = "\<lparr>um_state = UNDOING_STATE, dontCompose = False, undoStack = [[Num 1]],
                   redoStack = [], maxItems = 2\<rparr>"]
    by simp
  have 2: "add (\<lambda>a b. Inr (a @ b)) [Num 2] True
     \<lparr>um_state = REDOING_STATE, dontCompose = False, undoStack = [[Num 1]], redoStack = [],
      maxItems = 2\<rparr> =
     (Inr (), \<lparr>um_state = REDOING_STATE, dontCompose = True, undoStack = [[Num 1], [Num 2]],
               redoStack = [], maxItems = 2\<rparr>)"
    using add_by_mode [where cmp = "\<lambda>a b. Inr (a @ b)" and operation = "[Num 2]"
        and compose = True
        and um = "\<lparr>um_state = REDOING_STATE, dontCompose = False, undoStack = [[Num 1]],
                   redoStack = [], maxItems = 2\<rparr>"]
    by simp
  have 3: "add (\<lambda>a b. Inr (a @ b)) [Num 2] True
     \<lparr>um_state = NORMAL_STATE, dontCompose = False, undoStack = [[Num 1]],
      redoStack = [[Num 9]], maxItems = 2\<rparr> =
     (Inr (), \<lparr>um_state = NORMAL_STATE, dontCompose = False, undoStack = [[Num 2, Num 1]],
               redoStack = [], maxItems = 2\<rparr>)"
    using add_by_mode [where cmp = "\<lambda>a b. Inr (a @ b)" and operation = "[Num 2]"
        and compose = True and composed = "[Num 2, Num 1]"
        and um = "\<lparr>um_state = NORMAL_STATE, dontCompose = False, undoStack = [[Num 1]],
                   redoStack = [[Num 9]], maxItems = 2\<rparr>"]
    by simp
  have 4: "add (\<lambda>a b. Inr (a @ b)) [Num 2] True
     \<lparr>um_state = NORMAL_STATE, dontCompose = True, undoStack = [[Num 1]],
      redoStack = [[Num 9]], maxItems = 1\<rparr> =
     (Inr (), \<lparr>um_state = NORMAL_STATE, dontCompose = False, undoStack = [[Num 2]],
               redoStack = [], maxItems = 1\<rparr>)"
    using add_by_mode [where cmp = "\<lambda>a b. Inr (a @ b)" and operation = "[Num 2]"
        and compose = True
        and um = "\<lparr>um_state = NORMAL_STATE, dontCompose = True, undoStack = [[Num 1]],
                   redoStack = [[Num 9]], maxItems = 1\<rparr>"]
    by simp
  have 5: "add (\<lambda>a b. Inr (a @ b)) [Num 3] True
     (snd (add (\<lambda>a b. Inr (a @ b)) [Num 2] True
        \<lparr>um_state = NORMAL_STATE, dontCompose = True, undoStack = [[Num 1]],
         redoStack = [[Num 9]], maxItems = 2\<rparr>)) =
     (Inr (), \<lparr>um_state = NORMAL_STATE, dontCompose = False,
               undoStack = [[Num 1], [Num 3, Num 2]], redoStack = [], maxItems = 2\<rparr>)"
    using add_by_mode [where cmp = "\<lambda>a b. Inr (a @ b)" and operation = "[Num 2]"
        and compose = True and operation_b = "[Num 3]" and composed_b = "[Num 3, Num 2]"
        and um = "\<lparr>um_state = NORMAL_STATE, dontCompose = True, undoStack = [[Num 1]],
                   redoStack = [[Num 9]], maxItems = 2\<rparr>"]
    by (simp add: add_def)
  from 1 2 3 4 5 show ?thesis
    by (intro conjI)
qed

subsection \<open>The bound on the stacks\<close>

lemma within_bound_new: "within_bound n (UndoManager_new n)"
  by (simp add: within_bound_def UndoManager_new_def)

lemma within_bound_add:
  assumes "within_bound n um" and "add cmp operation compose um = (Inr (), um')"
  shows "within_bound n um'"
  using assms
  by (auto simp: within_bound_def add_def Let_def split: if_splits sum.splits)

lemma add_each_UNDOING:
  "um_state um = UNDOING_STATE \<Longrightarrow>
   add_each cmp xs um =
     (Inr (), um\<lparr>redoStack := redoStack um @ map fst xs,
                dontCompose := (xs \<noteq> [] \<or> dontCompose um)\<rparr>)"
  by (induction xs arbitrary: um) (simp_all add: add_def)

lemma add_each_REDOING:
  "um_state um = REDOING_STATE \<Longrightarrow>
   add_each cmp xs um =
     (Inr (), um\<lparr>undoStack := undoStack um @ map fst xs,
                dontCompose := (xs \<noteq> [] \<or> dontCompose um)\<rparr>)"
  by (induction xs arbitrary: um) (simp_all add: add_def)

lemma within_bound_performUndo:
  assumes "within_bound n um" and "\<forall>popped. length (g popped) \<le> 1"
    and "performUndo (\<lambda>popped. add_each cmp (g popped)) um = (Inr (), um')"
  shows "within_bound n um'"
proof -
  from assms(3) have ne: "undoStack um \<noteq> []"
    by (auto simp: performUndo_def Let_def split: if_splits)
  have l: "length (g (last (undoStack um))) \<le> 1"
    using assms(2) by simp
  from assms(3) ne have "um' = um\<lparr>um_state := NORMAL_STATE, undoStack := butlast (undoStack um),
      redoStack := redoStack um @ map fst (g (last (undoStack um))),
      dontCompose := (g (last (undoStack um)) \<noteq> [] \<or> dontCompose um)\<rparr>"
    by (auto simp: performUndo_def Let_def add_each_UNDOING)
  with assms(1) ne l show ?thesis
    by (cases "undoStack um" rule: rev_cases) (auto simp: within_bound_def)
qed

lemma within_bound_performRedo:
  assumes "within_bound n um" and "\<forall>popped. length (g popped) \<le> 1"
    and "performRedo (\<lambda>popped. add_each cmp (g popped)) um = (Inr (), um')"
  shows "within_bound n um'"
proof -
  from assms(3) have ne: "redoStack um \<noteq> []"
    by (auto simp: performRedo_def Let_def split: if_splits)
  have l: "length (g (last (redoStack um))) \<le> 1"
    using assms(2) by simp
  from assms(3) ne have "um' = um\<lparr>um_state := NORMAL_STATE, redoStack := butlast (redoStack um),
      undoStack := undoStack um @ map fst (g (last (redoStack um))),
      dontCompose := (g (last (redoStack um)) \<noteq> [] \<or> dontCompose um)\<rparr>"
    by (auto simp: performRedo_def Let_def add_each_REDOING)
  with assms(1) ne l show ?thesis
    by (cases "redoStack um" rule: rev_cases) (auto simp: within_bound_def)
qed

lemma within_bound_transform:
  assumes "within_bound n um" and "UndoManager_transform tr isNoop operation um = (Inr (), um')"
  shows "within_bound n um'"
proof -
  from assms(2) obtain newUndo newRedo
    where u: "transformStack tr isNoop (undoStack um) operation = Inr newUndo"
      and r: "transformStack tr isNoop (redoStack um) operation = Inr newRedo"
      and um': "um' = um\<lparr>undoStack := newUndo, redoStack := newRedo\<rparr>"
    by (auto simp: UndoManager_transform_def Let_def split: sum.splits)
  from transformStack_length [OF u] transformStack_length [OF r] assms(1) um'
  show ?thesis
    by (simp add: within_bound_def)
qed

lemma within_bound_exec:
  assumes "within_bound n um" and "adds_at_most_one c"
    and "um_exec cmp tr isNoop c um = (Inr (), um')"
  shows "within_bound n um'"
proof (cases c)
  case (Add operation compose)
  with assms show ?thesis
    by (auto intro: within_bound_add)
next
  case (Transform operation)
  with assms show ?thesis
    by (auto intro: within_bound_transform)
next
  case (PerformUndo g)
  with assms(2) have "\<forall>popped. length (g popped) \<le> 1"
    by simp
  from within_bound_performUndo [OF assms(1) this] assms(3) PerformUndo show ?thesis
    by simp
next
  case (PerformRedo g)
  with assms(2) have "\<forall>popped. length (g popped) \<le> 1"
    by simp
  from within_bound_performRedo [OF assms(1) this] assms(3) PerformRedo show ?thesis
    by simp
qed

lemma within_bound_run:
  "within_bound n um \<Longrightarrow> \<forall>c\<in>set cs. adds_at_most_one c \<Longrightarrow>
   um_run cmp tr isNoop cs um = (Inr (), um') \<Longrightarrow> within_bound n um'"
proof (induction cs arbitrary: um)
  case Nil
  then show ?case by simp
next
  case (Cons c cs)
  from Cons.prems(3) obtain um1
    where e: "um_exec cmp tr isNoop c um = (Inr (), um1)"
      and r: "um_run cmp tr isNoop cs um1 = (Inr (), um')"
    by (auto split: prod.splits sum.splits)
  from within_bound_exec [OF Cons.prems(1) _ e] Cons.prems(2) have "within_bound n um1"
    by simp
  from Cons.IH [OF this _ r] Cons.prems(2) show ?case
    by simp
qed

text \<open>
  C4, as the claim states it, fails: \<^verbatim>\<open>add\<close> pushes without trimming while undoing
  or redoing.  With \<^verbatim>\<open>maxItems\<close> 1, one add and then a \<^verbatim>\<open>performUndo\<close> whose
  callback calls \<^verbatim>\<open>add\<close> twice leave two entries on the redo stack.
\<close>

theorem redo_stack_exceeds_maxItems:
  "fst (um_run (\<lambda>a b. Inr (a @ b)) (\<lambda>a b. Inr (a, b)) (\<lambda>a. False)
          [Add [Num 1] False, PerformUndo (\<lambda>popped. [([Num 2], False), ([Num 3], False)])]
          (UndoManager_new 1)) = Inr () \<and>
   \<not> length (redoStack (snd (um_run (\<lambda>a b. Inr (a @ b)) (\<lambda>a b. Inr (a, b)) (\<lambda>a. False)
          [Add [Num 1] False, PerformUndo (\<lambda>popped. [([Num 2], False), ([Num 3], False)])]
          (UndoManager_new 1)))) \<le>
     maxItems (snd (um_run (\<lambda>a b. Inr (a @ b)) (\<lambda>a b. Inr (a, b)) (\<lambda>a. False)
          [Add [Num 1] False, PerformUndo (\<lambda>popped. [([Num 2], False), ([Num 3], False)])]
          (UndoManager_new 1)))"
  by (simp add: UndoManager_new_def add_def performUndo_def)

text \<open>
  So does a \<^verbatim>\<open>performUndo\<close> on an empty stack: it throws with the state left at
  undoing, and the adds that follow go to the redo stack untrimmed.
\<close>

lemma redo_stack_grows_after_failed_undo:
  "performUndo fn (UndoManager_new 1) =
     (Inl (Error ''undo not possible''),
      \<lparr>um_state = UNDOING_STATE, dontCompose = False, undoStack = [], redoStack = [],
       maxItems = 1\<rparr>) \<and>
   snd (add cmp [Num 2] False (snd (add cmp [Num 1] False
      (snd (performUndo fn (UndoManager_new 1)))))) =
     \<lparr>um_state = UNDOING_STATE, dontCompose = True, undoStack = [],
      redoStack = [[Num 1], [Num 2]], maxItems = 1\<rparr>"
  by (simp add: UndoManager_new_def add_def performUndo_def)

text \<open>
  C4, amended.  Starting from a new undo manager, along every sequence of calls of
  \<^verbatim>\<open>add\<close>, \<^verbatim>\<open>transform\<close>, \<^verbatim>\<open>performUndo\<close> and \<^verbatim>\<open>performRedo\<close> in which
  no call throws and every callback of \<^verbatim>\<open>performUndo\<close> and \<^verbatim>\<open>performRedo\<close>
  calls \<^verbatim>\<open>add\<close> at most once, the undo stack and the redo stack together, hence
  each of them, hold at most \<^verbatim>\<open>maxItems\<close> entries.  A push in the normal state on an
  undo stack that already holds \<^verbatim>\<open>maxItems\<close> entries or more drops the oldest
  entry.
\<close>

theorem stacks_bounded_in_documented_use:
  "(fst (um_run cmp tr isNoop cs (UndoManager_new n)) = Inr () \<and>
    (\<forall>c\<in>set cs. adds_at_most_one c) \<longrightarrow>
      length (undoStack (snd (um_run cmp tr isNoop cs (UndoManager_new n)))) +
      length (redoStack (snd (um_run cmp tr isNoop cs (UndoManager_new n)))) \<le> n \<and>
      maxItems (snd (um_run cmp tr isNoop cs (UndoManager_new n))) = n) \<and>
   (um_state um = NORMAL_STATE \<and> (dontCompose um \<or> \<not> compose \<or> undoStack um = []) \<and>
    maxItems um \<le> length (undoStack um) \<longrightarrow>
      undoStack (snd (add cmp operation compose um)) = tl (undoStack um @ [operation]))"
proof (intro conjI impI)
  assume h: "fst (um_run cmp tr isNoop cs (UndoManager_new n)) = Inr () \<and>
    (\<forall>c\<in>set cs. adds_at_most_one c)"
  obtain um' where r: "um_run cmp tr isNoop cs (UndoManager_new n) = (Inr (), um')"
    using h by (cases "um_run cmp tr isNoop cs (UndoManager_new n)") auto
  from within_bound_run [OF within_bound_new _ r] h have "within_bound n um'"
    by blast
  then show "length (undoStack (snd (um_run cmp tr isNoop cs (UndoManager_new n)))) +
      length (redoStack (snd (um_run cmp tr isNoop cs (UndoManager_new n)))) \<le> n"
    and "maxItems (snd (um_run cmp tr isNoop cs (UndoManager_new n))) = n"
    by (simp_all add: r within_bound_def)
next
  assume "um_state um = NORMAL_STATE \<and> (dontCompose um \<or> \<not> compose \<or> undoStack um = []) \<and>
    maxItems um \<le> length (undoStack um)"
  then show "undoStack (snd (add cmp operation compose um)) = tl (undoStack um @ [operation])"
    by (auto simp: add_def Let_def)
qed

theorem stacks_bounded_in_documented_use_witness:
  "fst (um_run (\<lambda>a b. Inr (a @ b)) (\<lambda>a b. Inr (a, b)) (\<lambda>a. False)
          [Add [Num 1] False, Add [Num 2] False, PerformUndo (\<lambda>popped. [(popped, False)]),
           PerformRedo (\<lambda>popped. [(popped, False)]), PerformUndo (\<lambda>popped. [(popped, False)])]
          (UndoManager_new 1)) = Inr () \<and>
   length (undoStack (snd (um_run (\<lambda>a b. Inr (a @ b)) (\<lambda>a b. Inr (a, b)) (\<lambda>a. False)
          [Add [Num 1] False, Add [Num 2] False, PerformUndo (\<lambda>popped. [(popped, False)]),
           PerformRedo (\<lambda>popped. [(popped, False)]), PerformUndo (\<lambda>popped. [(popped, False)])]
          (UndoManager_new 1)))) +
   length (redoStack (snd (um_run (\<lambda>a b. Inr (a @ b)) (\<lambda>a b. Inr (a, b)) (\<lambda>a. False)
          [Add [Num 1] False, Add [Num 2] False, PerformUndo (\<lambda>popped. [(popped, False)]),
           PerformRedo (\<lambda>popped. [(popped, False)]), PerformUndo (\<lambda>popped. [(popped, False)])]
          (UndoManager_new 1)))) \<le> 1 \<and>
   undoStack (snd (add (\<lambda>a b. Inr (a @ b)) [Num 2] False
      \<lparr>um_state = NORMAL_STATE, dontCompose = False, undoStack = [[Num 1]], redoStack = [],
       maxItems = 1\<rparr>)) = [[Num 2]]"
  using stacks_bounded_in_documented_use
    [where cmp = "\<lambda>a b. Inr (a @ b)" and tr = "\<lambda>a b. Inr (a, b)" and isNoop = "\<lambda>a. False"
       and cs = "[Add [Num 1] False, Add [Num 2] False, PerformUndo (\<lambda>popped. [(popped, False)]),
           PerformRedo (\<lambda>popped. [(popped, False)]), PerformUndo (\<lambda>popped. [(popped, False)])]"
       and n = 1 and operation = "[Num 2]" and compose = False
       and um = "\<lparr>um_state = NORMAL_STATE, dontCompose = False, undoStack = [[Num 1]],
                  redoStack = [], maxItems = 1\<rparr>"]
  by (simp add: UndoManager_new_def add_def performUndo_def performRedo_def)

section \<open>Range and Selection: theorems\<close>

lemma transformIndex_loop_walk:
  "transformIndex_loop ops i index newIndex =
     position_through (map as_atom (drop i ops)) index newIndex"
proof (induction ops i index newIndex rule: transformIndex_loop.induct)
  case (1 ops i index newIndex)
  show ?case
  proof (cases "i < length ops")
    case False
    then show ?thesis
      by (subst transformIndex_loop.simps) simp
  next
    case True
    then have d: "drop i ops = ops ! i # drop (Suc i) ops"
      by (simp add: Cons_nth_drop_Suc)
    show ?thesis
    proof (cases "ops ! i")
      case (Num n)
      with True d "1.IH" show ?thesis
        by (subst transformIndex_loop.simps) (simp add: Let_def)
    next
      case (Str s)
      with True d "1.IH" show ?thesis
        by (subst transformIndex_loop.simps) (simp add: Let_def)
    qed
  qed
qed

text \<open>
  C7.  \<^verbatim>\<open>Range.transform(op)\<close> maps the anchor and the head through \<open>op\<close> by the
  position rule: a retain of \<open>n\<close> decrements the remaining index by \<open>n\<close>, an insert of
  \<open>s\<close> adds the length of \<open>s\<close> to the new position, a delete of \<open>n\<close> subtracts the
  minimum of the remaining index and \<open>n\<close> from the new position and decrements the
  remaining index by \<open>n\<close>, and the walk stops once the remaining index is negative.  When
  the anchor equals the head, the result has equal anchor and head.
\<close>

theorem Range_transform_walk:
  "Range_transform ops r =
     \<lparr>anchor = position_through (map as_atom ops) (anchor r) (anchor r),
      head = position_through (map as_atom ops) (head r) (head r)\<rparr> \<and>
   (anchor r = head r \<longrightarrow> anchor (Range_transform ops r) = head (Range_transform ops r))"
  by (simp add: Range_transform_def transformIndex_def transformIndex_loop_walk Let_def)

text \<open>
  A cursor at 3 under "retain 3, insert ab, retain 2" moves to 5 and stays a cursor; the
  range from 1 to 4 becomes the range from 1 to 6; under "retain 2, delete 3, retain 1"
  the anchor 4, inside the deleted text, is moved to its start.
\<close>

theorem Range_transform_walk_witness:
  "Range_transform [Num 3, Str ''ab'', Num 2] \<lparr>anchor = 3, head = 3\<rparr> =
     \<lparr>anchor = 5, head = 5\<rparr> \<and>
   Range_transform [Num 3, Str ''ab'', Num 2] \<lparr>anchor = 1, head = 4\<rparr> =
     \<lparr>anchor = 1, head = 6\<rparr> \<and>
   Range_transform [Num 2, Num (- 3), Num 1] \<lparr>anchor = 4, head = 6\<rparr> =
     \<lparr>anchor = 2, head = 3\<rparr>"
  using Range_transform_walk [of "[Num 3, Str ''ab'', Num 2]" "\<lparr>anchor = 3, head = 3\<rparr>"]
    Range_transform_walk [of "[Num 3, Str ''ab'', Num 2]" "\<lparr>anchor = 1, head = 4\<rparr>"]
    Range_transform_walk [of "[Num 2, Num (- 3), Num 1]" "\<lparr>anchor = 4, head = 6\<rparr>"]
  by simp

text \<open>
  C8.  The claim says that \<^verbatim>\<open>equals\<close> compares sorted copies and leaves both
  selections unchanged.  The code sorts the two arrays of ranges themselves.  For a
  selection holding the ranges (5, 5) and (1, 1) in this order, compared with a selection
  holding (1, 1) and (5, 5), the answer is true and the first selection holds (1, 1) and
  (5, 5) afterwards.
\<close>

theorem equals_reorders_ranges:
  "fst (Selection_equals
          ((\<lambda>a. [])(0 := [\<lparr>anchor = 5, head = 5\<rparr>, \<lparr>anchor = 1, head = 1\<rparr>],
                     1 := [\<lparr>anchor = 1, head = 1\<rparr>, \<lparr>anchor = 5, head = 5\<rparr>]))
          \<lparr>ranges = 0\<rparr> \<lparr>ranges = 1\<rparr>) = True \<and>
   snd (Selection_equals
          ((\<lambda>a. [])(0 := [\<lparr>anchor = 5, head = 5\<rparr>, \<lparr>anchor = 1, head = 1\<rparr>],
                     1 := [\<lparr>anchor = 1, head = 1\<rparr>, \<lparr>anchor = 5, head = 5\<rparr>]))
          \<lparr>ranges = 0\<rparr> \<lparr>ranges = 1\<rparr>) 0 =
     [\<lparr>anchor = 1, head = 1\<rparr>, \<lparr>anchor = 5, head = 5\<rparr>]"
  by (simp add: Selection_equals_def sortRanges_def Array_sort_def compareRanges_def
      equals_loop.simps Range_equals_def)

text \<open>
  For two selections with arrays of their own and of the same length, the answer is that
  of comparing the sorted lists, and both arrays are left sorted; when the lengths differ
  the call returns false and writes nothing.
\<close>

lemma length_sort_insert: "length (sort_insert compareFn x xs) = Suc (length xs)"
  by (induction xs) simp_all

lemma length_Array_sort: "length (Array_sort compareFn xs) = length xs"
  by (induction xs) (simp_all add: Array_sort_def length_sort_insert)

lemma equals_loop_iff:
  "length s1 = length s2 \<Longrightarrow> equals_loop s1 s2 i = (drop i s1 = drop i s2)"
proof (induction s1 s2 i rule: equals_loop.induct)
  case (1 s1 s2 i)
  show ?case
  proof (cases "i < length s1")
    case False
    with "1.prems" show ?thesis
      by (subst equals_loop.simps) simp
  next
    case True
    with "1.prems" have d: "drop i s1 = s1 ! i # drop (Suc i) s1"
      "drop i s2 = s2 ! i # drop (Suc i) s2"
      by (simp_all add: Cons_nth_drop_Suc)
    show ?thesis
      using True "1.IH" "1.prems" d
      by (subst equals_loop.simps) (auto simp: Range_equals_def)
  qed
qed

lemma Selection_equals_sorts_in_place:
  assumes "ranges this \<noteq> ranges other"
    and "length (h (ranges this)) = length (h (ranges other))"
  shows "Selection_equals h this other =
     (Array_sort compareRanges (h (ranges this)) = Array_sort compareRanges (h (ranges other)),
      h(ranges this := Array_sort compareRanges (h (ranges this)),
        ranges other := Array_sort compareRanges (h (ranges other))))"
  using assms
  by (simp add: Selection_equals_def sortRanges_def Let_def equals_loop_iff length_Array_sort)

lemma Selection_equals_lengths_differ:
  "length (h (ranges this)) \<noteq> length (h (ranges other)) \<Longrightarrow>
   Selection_equals h this other = (False, h)"
  by (simp add: Selection_equals_def)

end
